theory Spec2Isabelle
  imports Complex_Main
begin

section \<open>Values shared by the session client and the pool\<close>

text \<open>
  Objects are identified by the order of their allocation: a connection is the number of
  the \<open>new OdooClient\<close> that made it, a wait ticket the number of the promise that
  \<open>_waitForConnection\<close> made.
\<close>

type_synonym conn = nat
type_synonym ticket = nat

text \<open>
  The class \<open>OdooConnectionError\<close> of \<open>core/errors\<close>: its constructor
  \<open>constructor(message, originalError = null)\<close> keeps the message and the original
  error (the status code 503 and the \<open>retryable\<close> flag are the same for every
  instance and are left out). \<open>Error\<close> is a plain JavaScript error (also what the
  transport reports).
\<close>

datatype err = Error string | OdooConnectionError string "err option"

text \<open>
  The function objects of \<open>_waitForConnection\<close>: the promise's own \<open>resolve\<close>,
  and the arrow function \<open>(connection) => {...}\<close> that is pushed on the queue.
  They are different objects, which \<open>indexOf\<close> tells apart.
\<close>

datatype js_fn = PromiseResolve ticket | WaitCallback ticket

datatype promise = Pending | Resolved "conn option" | Rejected err

datatype auth_event = Attempt nat | Sleep real

record pool_config =
  pool_min :: "nat option"
  pool_max :: "nat option"
  idleTimeoutMillis :: "nat option"
  connectionTimeoutMillis :: "nat option"

record retry_config =
  maxAttempts :: nat
  delayMs :: real
  backoffMultiplier :: real

record odoo_config =
  pool :: pool_config
  retry :: retry_config

record client =
  uid :: "nat option"
  connectedFlag :: bool

record pool_stats =
  created :: nat
  acquired :: nat
  released :: nat
  destroyed :: nat
  queuedRequests :: nat

text \<open>
  The pool object (the first eight fields, named as in the constructor) together with
  what the JavaScript runtime holds for it: the client objects, the promises of the
  queued callers, and the pending timers (each with its delay).
  \<open>activeConnections\<close> is the \<open>Set\<close> in insertion order.
\<close>

record pool_state =
  config :: odoo_config
  minConnections :: nat
  maxConnections :: nat
  idleTimeout :: nat
  availableConnections :: "conn list"
  activeConnections :: "conn list"
  connectionQueue :: "js_fn list"
  stats :: pool_stats
  clients :: "conn \<Rightarrow> client"
  nextClient :: conn
  promises :: "ticket \<Rightarrow> promise"
  nextPromise :: ticket
  waitTimers :: "(ticket \<times> nat) list"
  idleTimers :: "(conn \<times> nat) list"

text \<open>
  The remote server and whatever else can fail outside the program: the outcome of the
  k-th \<open>odoo.connect\<close> of a client, and whether a client's \<open>disconnect\<close> raises.
\<close>

record remote =
  authenticate :: "conn \<Rightarrow> nat \<Rightarrow> err + nat"
  disconnectError :: "conn \<Rightarrow> err option"

section \<open>JavaScript helpers\<close>

text \<open>\<open>v || d\<close> on a number that may be undefined: 0 and undefined give the default.\<close>

definition js_or :: "nat option \<Rightarrow> nat \<Rightarrow> nat" where
  "js_or v d = (case v of None \<Rightarrow> d | Some n \<Rightarrow> if n = 0 then d else n)"

text \<open>Truthiness of \<open>this.uid\<close>: \<open>null\<close> and 0 are falsy.\<close>

definition truthy :: "nat option \<Rightarrow> bool" where
  "truthy v = (case v of None \<Rightarrow> False | Some n \<Rightarrow> n \<noteq> 0)"

text \<open>\<open>Set.prototype.add\<close>: an element already present keeps its place.\<close>

definition set_add :: "'a \<Rightarrow> 'a list \<Rightarrow> 'a list" where
  "set_add x xs = (if x \<in> set xs then xs else xs @ [x])"

text \<open>\<open>Set.prototype.delete\<close>.\<close>

definition set_delete :: "'a \<Rightarrow> 'a list \<Rightarrow> 'a list" where
  "set_delete x xs = removeAll x xs"

text \<open>
  \<open>const index = xs.indexOf(x); if (index > -1) xs.splice(index, 1)\<close>: the first
  occurrence is removed, and nothing when there is none.
\<close>

definition splice_indexOf :: "'a \<Rightarrow> 'a list \<Rightarrow> 'a list" where
  "splice_indexOf x xs = (if x \<in> set xs then remove1 x xs else xs)"

text \<open>The decimal digits of a number, as a template literal prints it.\<close>

fun show_nat :: "nat \<Rightarrow> string" where
  "show_nat n =
     (if n < 10 then [char_of (48 + n)]
      else show_nat (n div 10) @ [char_of (48 + n mod 10)])"

declare show_nat.simps [simp del]

section \<open>OdooClient\<close>

text \<open>
  \<open>_authenticateWithRetry\<close>: the \<open>for\<close> loop over \<open>attempt\<close>, with the attempts and
  the sleeps it makes recorded in order. \<open>auth k\<close> is the outcome of the k-th
  \<open>odoo.connect\<close>.
\<close>

function authLoop ::
  "retry_config \<Rightarrow> (nat \<Rightarrow> err + nat) \<Rightarrow> nat \<Rightarrow> err option \<Rightarrow> auth_event list
     \<Rightarrow> (err + nat) \<times> auth_event list" where
  "authLoop r auth attempt lastError tr =
     (if attempt \<le> maxAttempts r then
        (case auth attempt of
           Inr u \<Rightarrow> (Inr u, tr @ [Attempt attempt])
         | Inl error \<Rightarrow>
             authLoop r auth (attempt + 1) (Some error)
               (if attempt < maxAttempts r
                then tr @ [Attempt attempt,
                           Sleep (delayMs r * backoffMultiplier r ^ (attempt - 1))]
                else tr @ [Attempt attempt]))
      else
        (Inl (OdooConnectionError
               (''Failed to authenticate after '' @ show_nat (maxAttempts r) @ '' attempts'')
               lastError),
         tr))"
  by pat_completeness auto
termination
  by (relation "measure (\<lambda>(r, auth, attempt, lastError, tr). maxAttempts r + 1 - attempt)") auto

declare authLoop.simps [simp del]

definition authenticateWithRetry ::
  "retry_config \<Rightarrow> (nat \<Rightarrow> err + nat) \<Rightarrow> (err + nat) \<times> auth_event list" where
  "authenticateWithRetry r auth = authLoop r auth 1 None []"

text \<open>
  \<open>connect\<close>: nothing to do when already authenticated; otherwise authenticate with
  retry and set \<open>uid\<close> and \<open>connected\<close>; any failure is rethrown wrapped.
\<close>

definition client_connect :: "remote \<Rightarrow> conn \<Rightarrow> pool_state \<Rightarrow> err + pool_state" where
  "client_connect env c s =
     (if connectedFlag (clients s c) \<and> truthy (uid (clients s c)) then Inr s
      else
        (case fst (authenticateWithRetry (retry (config s)) (authenticate env c)) of
           Inr u \<Rightarrow>
             Inr (s\<lparr>clients := (clients s)(c := \<lparr>uid = Some u, connectedFlag = True\<rparr>)\<rparr>)
         | Inl error \<Rightarrow> Inl (OdooConnectionError ''Failed to connect to Odoo'' (Some error))))"

text \<open>
  \<open>disconnect\<close>: when connected, log, then clear \<open>connected\<close> and \<open>uid\<close>. The
  only thing that can raise in it is the call made before the fields are cleared.
\<close>

definition client_disconnect :: "remote \<Rightarrow> conn \<Rightarrow> pool_state \<Rightarrow> err + pool_state" where
  "client_disconnect env c s =
     (if connectedFlag (clients s c) then
        (case disconnectError env c of
           Some error \<Rightarrow> Inl error
         | None \<Rightarrow> Inr (s\<lparr>clients := (clients s)(c := \<lparr>uid = None, connectedFlag = False\<rparr>)\<rparr>))
      else Inr s)"

definition isConnected :: "client \<Rightarrow> bool" where
  "isConnected cl = (connectedFlag cl \<and> uid cl \<noteq> None)"

section \<open>OdooConnectionPool\<close>

subsection \<open>Construction and the singleton\<close>

definition new_pool :: "odoo_config \<Rightarrow> pool_state" where
  "new_pool cfg =
     \<lparr>config = cfg,
      minConnections = js_or (pool_min (pool cfg)) 2,
      maxConnections = js_or (pool_max (pool cfg)) 10,
      idleTimeout = js_or (idleTimeoutMillis (pool cfg)) 30000,
      availableConnections = [],
      activeConnections = [],
      connectionQueue = [],
      stats = \<lparr>created = 0, acquired = 0, released = 0, destroyed = 0, queuedRequests = 0\<rparr>,
      clients = (\<lambda>c. \<lparr>uid = None, connectedFlag = False\<rparr>),
      nextClient = 0,
      promises = (\<lambda>t. Pending),
      nextPromise = 0,
      waitTimers = [],
      idleTimers = []\<rparr>"

text \<open>
  The class with its static field: \<open>heap\<close> holds the pool objects in order of
  construction, so that a reference to a pool object is its index; \<open>instance_ref\<close> is
  \<open>OdooConnectionPool.instance\<close>.
\<close>

record pool_class =
  heap :: "pool_state list"
  instance_ref :: "nat option"

definition getInstance :: "odoo_config option \<Rightarrow> pool_class \<Rightarrow> err + (nat \<times> pool_class)" where
  "getInstance cfg k =
     (case instance_ref k of
        Some p \<Rightarrow> Inr (p, k)
      | None \<Rightarrow>
          (case cfg of
             None \<Rightarrow> Inl (Error ''Config is required for first initialization of OdooConnectionPool'')
           | Some c \<Rightarrow>
               Inr (length (heap k),
                    k\<lparr>heap := heap k @ [new_pool c],
                      instance_ref := Some (length (heap k))\<rparr>)))"

text \<open>
  A run of \<open>getInstance\<close> calls; a call that throws leaves the class as it was. The
  result lists what each call returned.
\<close>

fun getInstance_calls ::
  "odoo_config option list \<Rightarrow> pool_class \<Rightarrow> (err + nat) list \<times> pool_class" where
  "getInstance_calls [] k = ([], k)"
| "getInstance_calls (cfg # cfgs) k =
     (case getInstance cfg k of
        Inl e \<Rightarrow> (case getInstance_calls cfgs k of (rs, k') \<Rightarrow> (Inl e # rs, k'))
      | Inr (p, k1) \<Rightarrow> (case getInstance_calls cfgs k1 of (rs, k') \<Rightarrow> (Inr p # rs, k')))"

subsection \<open>Statistics\<close>

definition inc_created :: "pool_state \<Rightarrow> pool_state" where
  "inc_created s = s\<lparr>stats := (stats s)\<lparr>created := created (stats s) + 1\<rparr>\<rparr>"

definition inc_acquired :: "pool_state \<Rightarrow> pool_state" where
  "inc_acquired s = s\<lparr>stats := (stats s)\<lparr>acquired := acquired (stats s) + 1\<rparr>\<rparr>"

definition inc_released :: "pool_state \<Rightarrow> pool_state" where
  "inc_released s = s\<lparr>stats := (stats s)\<lparr>released := released (stats s) + 1\<rparr>\<rparr>"

definition inc_destroyed :: "pool_state \<Rightarrow> pool_state" where
  "inc_destroyed s = s\<lparr>stats := (stats s)\<lparr>destroyed := destroyed (stats s) + 1\<rparr>\<rparr>"

definition inc_queuedRequests :: "pool_state \<Rightarrow> pool_state" where
  "inc_queuedRequests s = s\<lparr>stats := (stats s)\<lparr>queuedRequests := queuedRequests (stats s) + 1\<rparr>\<rparr>"

text \<open>\<open>getStats().total\<close>.\<close>

definition stats_total :: "pool_state \<Rightarrow> nat" where
  "stats_total s = length (availableConnections s) + length (activeConnections s)"

subsection \<open>Promises and the queued callbacks\<close>

text \<open>A promise settles once: later calls of its \<open>resolve\<close> or \<open>reject\<close> do nothing.\<close>

definition settle :: "ticket \<Rightarrow> promise \<Rightarrow> pool_state \<Rightarrow> pool_state" where
  "settle t v s = (if promises s t = Pending then s\<lparr>promises := (promises s)(t := v)\<rparr> else s)"

definition clearTimeout :: "ticket \<Rightarrow> pool_state \<Rightarrow> pool_state" where
  "clearTimeout t s = s\<lparr>waitTimers := filter (\<lambda>p. fst p \<noteq> t) (waitTimers s)\<rparr>"

definition pool_closing :: err where
  "pool_closing = OdooConnectionError ''Connection pool is closing'' None"

definition wait_timeout :: err where
  "wait_timeout = OdooConnectionError ''Timeout waiting for available connection'' None"

text \<open>
  Calling an entry of the queue with a connection or \<open>null\<close>. The queued arrow function
  clears its timer, then resolves with the connection or rejects when given \<open>null\<close>.
\<close>

fun call_fn :: "js_fn \<Rightarrow> conn option \<Rightarrow> pool_state \<Rightarrow> pool_state" where
  "call_fn (WaitCallback t) connection s =
     (case connection of
        Some c \<Rightarrow> settle t (Resolved (Some c)) (clearTimeout t s)
      | None \<Rightarrow> settle t (Rejected pool_closing) (clearTimeout t s))"
| "call_fn (PromiseResolve t) connection s = settle t (Resolved connection) s"

subsection \<open>Creating, waiting, idling\<close>

text \<open>\<open>new OdooClient(this.config, this.logger)\<close>.\<close>

definition new_client :: "pool_state \<Rightarrow> conn \<times> pool_state" where
  "new_client s =
     (nextClient s,
      s\<lparr>clients := (clients s)(nextClient s := \<lparr>uid = None, connectedFlag = False\<rparr>),
        nextClient := nextClient s + 1\<rparr>)"

text \<open>
  \<open>_createConnection\<close> from the point where \<open>connection.connect()\<close> has settled for
  the client \<open>c\<close> it made: count it and push it on the available list, or rethrow
  wrapped.
\<close>

definition createConnection_done ::
  "remote \<Rightarrow> conn \<Rightarrow> pool_state \<Rightarrow> (err + conn) \<times> pool_state" where
  "createConnection_done env c s =
     (case client_connect env c s of
        Inr s1 \<Rightarrow>
          (Inr c,
           (inc_created s1)\<lparr>availableConnections := availableConnections s1 @ [c]\<rparr>)
      | Inl error \<Rightarrow> (Inl (OdooConnectionError ''Failed to create connection'' (Some error)), s))"

text \<open>\<open>_createConnection\<close> run through without anything else in between.\<close>

definition createConnection :: "remote \<Rightarrow> pool_state \<Rightarrow> (err + conn) \<times> pool_state" where
  "createConnection env s = (case new_client s of (c, s1) \<Rightarrow> createConnection_done env c s1)"

text \<open>
  \<open>_waitForConnection\<close>: a new promise, its timer, and the arrow function pushed on
  the queue.
\<close>

definition waitForConnection :: "pool_state \<Rightarrow> ticket \<times> pool_state" where
  "waitForConnection s =
     (nextPromise s,
      s\<lparr>promises := (promises s)(nextPromise s := Pending),
        nextPromise := nextPromise s + 1,
        waitTimers := waitTimers s @
          [(nextPromise s, js_or (connectionTimeoutMillis (pool (config s))) 10000)],
        connectionQueue := connectionQueue s @ [WaitCallback (nextPromise s)]\<rparr>)"

text \<open>
  The timer of ticket \<open>t\<close> fires (it can only while it is pending): look the promise's
  \<open>resolve\<close> up in the queue, remove it when found, and reject.
\<close>

definition wait_timer_fires :: "ticket \<Rightarrow> pool_state \<Rightarrow> pool_state" where
  "wait_timer_fires t s =
     (if t \<in> fst ` set (waitTimers s) then
        settle t (Rejected wait_timeout)
          ((clearTimeout t s)
             \<lparr>connectionQueue := splice_indexOf (PromiseResolve t) (connectionQueue s)\<rparr>)
      else s)"

text \<open>\<open>_setIdleTimeout\<close>: the timer is set only above the minimum.\<close>

definition setIdleTimeout :: "conn \<Rightarrow> pool_state \<Rightarrow> pool_state" where
  "setIdleTimeout c s =
     (if length (availableConnections s) > minConnections s
      then s\<lparr>idleTimers := idleTimers s @ [(c, idleTimeout s)]\<rparr>
      else s)"

text \<open>
  The idle timer \<open>(c, d)\<close> fires (it can only while it is pending): when \<open>c\<close> is in
  the available list it is removed, disconnected (the promise of \<open>disconnect\<close> is
  dropped) and counted.
\<close>

definition idle_timer_fires :: "remote \<Rightarrow> conn \<times> nat \<Rightarrow> pool_state \<Rightarrow> pool_state" where
  "idle_timer_fires env tm s =
     (if tm \<in> set (idleTimers s) then
        (let s1 = s\<lparr>idleTimers := remove1 tm (idleTimers s)\<rparr> in
         if fst tm \<in> set (availableConnections s1) then
           (let s2 = s1\<lparr>availableConnections := remove1 (fst tm) (availableConnections s1)\<rparr>;
                s3 = (case client_disconnect env (fst tm) s2 of Inr s' \<Rightarrow> s' | Inl error \<Rightarrow> s2)
            in inc_destroyed s3)
         else s1)
      else s)"

subsection \<open>The public operations\<close>

text \<open>
  \<open>initialize\<close>: \<open>minConnections\<close> calls of \<open>_createConnection\<close>, all of which run;
  \<open>Promise.all\<close> fails when one of them failed (here with the first in order of
  creation).
\<close>

fun initialize_loop :: "remote \<Rightarrow> nat \<Rightarrow> pool_state \<Rightarrow> err option \<times> pool_state" where
  "initialize_loop env 0 s = (None, s)"
| "initialize_loop env (Suc n) s =
     (case createConnection env s of
        (r, s1) \<Rightarrow>
          (case initialize_loop env n s1 of
             (e, s2) \<Rightarrow> ((case r of Inl error \<Rightarrow> Some error | Inr c \<Rightarrow> e), s2)))"

definition initialize :: "remote \<Rightarrow> pool_state \<Rightarrow> err option \<times> pool_state" where
  "initialize env s = initialize_loop env (minConnections s) s"

text \<open>
  \<open>acquire\<close>. A caller gets a connection, or the error of the failed creation, or is
  left waiting on its ticket. The creation runs through without anything in between.
\<close>

datatype acquire_result = Acquired conn | Failed err | Queued ticket

definition acquire :: "remote \<Rightarrow> pool_state \<Rightarrow> acquire_result \<times> pool_state" where
  "acquire env s =
     (let s1 = inc_acquired s in
      if length (availableConnections s1) > 0 then
        (let connection = hd (availableConnections s1);
             s2 = s1\<lparr>availableConnections := tl (availableConnections s1)\<rparr>
         in (Acquired connection,
             s2\<lparr>activeConnections := set_add connection (activeConnections s2)\<rparr>))
      else if length (activeConnections s1) < maxConnections s1 then
        (case createConnection env s1 of
           (Inr connection, s2) \<Rightarrow>
             (Acquired connection,
              s2\<lparr>activeConnections := set_add connection (activeConnections s2)\<rparr>)
         | (Inl error, s2) \<Rightarrow> (Failed error, s2))
      else
        (case waitForConnection (inc_queuedRequests s1) of (t, s2) \<Rightarrow> (Queued t, s2)))"

text \<open>\<open>release\<close>.\<close>

definition release :: "conn \<Rightarrow> pool_state \<Rightarrow> pool_state" where
  "release connection s =
     (let s1 = inc_released s in
      if connection \<notin> set (activeConnections s1) then s1
      else
        (let s2 = s1\<lparr>activeConnections := set_delete connection (activeConnections s1)\<rparr> in
         if length (connectionQueue s2) > 0 then
           (let resolve = hd (connectionQueue s2);
                s3 = s2\<lparr>connectionQueue := tl (connectionQueue s2)\<rparr>;
                s4 = s3\<lparr>activeConnections := set_add connection (activeConnections s3)\<rparr>
            in call_fn resolve (Some connection) s4)
         else
           setIdleTimeout connection
             (s2\<lparr>availableConnections := availableConnections s2 @ [connection]\<rparr>)))"

text \<open>
  \<open>withConnection\<close>. The function given to it may run for a while and the pool may
  change meanwhile, so it is a function of the state as well. A caller whose
  acquisition is queued is suspended and goes on when its promise has settled.
\<close>

datatype 'a with_result = Done "err + 'a" | Suspended ticket

definition withConnection_body ::
  "(conn \<Rightarrow> pool_state \<Rightarrow> (err + 'a) \<times> pool_state) \<Rightarrow> conn \<Rightarrow> pool_state
     \<Rightarrow> 'a with_result \<times> pool_state" where
  "withConnection_body fn connection s =
     (case fn connection s of (r, s1) \<Rightarrow> (Done r, release connection s1))"

definition withConnection ::
  "remote \<Rightarrow> (conn \<Rightarrow> pool_state \<Rightarrow> (err + 'a) \<times> pool_state) \<Rightarrow> pool_state
     \<Rightarrow> 'a with_result \<times> pool_state" where
  "withConnection env fn s =
     (case acquire env s of
        (Acquired connection, s1) \<Rightarrow> withConnection_body fn connection s1
      | (Failed error, s1) \<Rightarrow> (Done (Inl error), s1)
      | (Queued t, s1) \<Rightarrow> (Suspended t, s1))"

definition withConnection_resume ::
  "(conn \<Rightarrow> pool_state \<Rightarrow> (err + 'a) \<times> pool_state) \<Rightarrow> ticket \<Rightarrow> pool_state
     \<Rightarrow> 'a with_result \<times> pool_state" where
  "withConnection_resume fn t s =
     (case promises s t of
        Resolved (Some connection) \<Rightarrow> withConnection_body fn connection s
      | Rejected error \<Rightarrow> (Done (Inl error), s)
      | _ \<Rightarrow> (Suspended t, s))"

text \<open>
  \<open>destroy\<close>. Each connection is disconnected inside its own \<open>try\<close>; an error there
  is logged and the connection is not counted. \<open>Promise.all\<close> would fail if one of
  these failed.
\<close>

definition destroy_connection :: "remote \<Rightarrow> conn \<Rightarrow> pool_state \<Rightarrow> err + pool_state" where
  "destroy_connection env c s =
     (case client_disconnect env c s of
        Inr s1 \<Rightarrow> Inr (inc_destroyed s1)
      | Inl error \<Rightarrow> Inr s)"

fun destroy_all :: "remote \<Rightarrow> conn list \<Rightarrow> pool_state \<Rightarrow> err + pool_state" where
  "destroy_all env [] s = Inr s"
| "destroy_all env (c # cs) s =
     (case destroy_connection env c s of
        Inl error \<Rightarrow> Inl error
      | Inr s1 \<Rightarrow> destroy_all env cs s1)"

definition destroy :: "remote \<Rightarrow> pool_state \<Rightarrow> err + pool_state" where
  "destroy env s =
     (let s1 = fold (\<lambda>resolve. call_fn resolve None) (connectionQueue s) s;
          s2 = s1\<lparr>connectionQueue := []\<rparr>;
          allConnections = availableConnections s2 @ activeConnections s2
      in case destroy_all env allConnections s2 of
           Inl error \<Rightarrow> Inl error
         | Inr s3 \<Rightarrow> Inr (s3\<lparr>availableConnections := [], activeConnections := []\<rparr>))"

subsection \<open>Runs of operations\<close>

text \<open>
  What can happen to a pool, one thing at a time: the calls of its users and the timers
  of the runtime. A \<open>destroy\<close> that failed would leave the state where it was.
\<close>

datatype pool_op =
    Initialize
  | Acquire
  | Release conn
  | WithConnection "conn \<Rightarrow> pool_state \<Rightarrow> (err + nat) \<times> pool_state"
  | Destroy
  | WaitTimerFires ticket
  | IdleTimerFires conn nat

fun step :: "remote \<Rightarrow> pool_op \<Rightarrow> pool_state \<Rightarrow> pool_state" where
  "step env Initialize s = snd (initialize env s)"
| "step env Acquire s = snd (acquire env s)"
| "step env (Release c) s = release c s"
| "step env (WithConnection fn) s = snd (withConnection env fn s)"
| "step env Destroy s = (case destroy env s of Inr s' \<Rightarrow> s' | Inl error \<Rightarrow> s)"
| "step env (WaitTimerFires t) s = wait_timer_fires t s"
| "step env (IdleTimerFires c d) s = idle_timer_fires env (c, d) s"

definition run :: "remote \<Rightarrow> pool_op list \<Rightarrow> pool_state \<Rightarrow> pool_state" where
  "run env ops s = fold (step env) ops s"

text \<open>A server that accepts every authentication, and clients that disconnect cleanly.\<close>

definition healthy :: remote where
  "healthy = \<lparr>authenticate = (\<lambda>c k. Inr 2), disconnectError = (\<lambda>c. None)\<rparr>"

definition test_config :: "nat \<Rightarrow> nat \<Rightarrow> odoo_config" where
  "test_config mn mx =
     \<lparr>pool = \<lparr>pool_min = Some mn, pool_max = Some mx,
              idleTimeoutMillis = Some 50, connectionTimeoutMillis = Some 100\<rparr>,
      retry = \<lparr>maxAttempts = 3, delayMs = 100, backoffMultiplier = 2\<rparr>\<rparr>"

text \<open>The class as loaded: \<open>static instance = null\<close>, no pool constructed yet.\<close>

definition class_loaded :: pool_class where
  "class_loaded = \<lparr>heap = [], instance_ref = None\<rparr>"

subsection \<open>Notions used to state the properties\<close>

fun is_queued :: "acquire_result \<Rightarrow> bool" where
  "is_queued (Queued t) = True"
| "is_queued (Acquired c) = False"
| "is_queued (Failed e) = False"

text \<open>
  The attempts and sleeps up to and including attempt \<open>j\<close>, starting with attempt
  \<open>a\<close>, when each attempt before \<open>j\<close> fails and is followed by its backoff sleep.
\<close>

definition backoff_trace :: "retry_config \<Rightarrow> nat \<Rightarrow> nat \<Rightarrow> auth_event list" where
  "backoff_trace r a j =
     concat (map (\<lambda>k. [Attempt k, Sleep (delayMs r * backoffMultiplier r ^ (k - 1))]) [a..<j])
     @ [Attempt j]"

fun is_attempt :: "auth_event \<Rightarrow> bool" where
  "is_attempt (Attempt k) = True"
| "is_attempt (Sleep d) = False"

subsection \<open>Scenarios\<close>

text \<open>
  Concrete pools and collaborators on which the operations are run: a pool after
  \<open>initialize\<close>; a pool of one connection with one user holding it; the same
  with a second user queued; the same pool after the second user has timed out and a third one has
  queued; the pool of the specification's scenario after three \<open>acquire\<close>; a pool
  with an idle timer pending; a function that throws; servers that refuse.
\<close>

definition initialized_pool :: "nat \<Rightarrow> nat \<Rightarrow> pool_state" where
  "initialized_pool mn mx = run healthy [Initialize] (new_pool (test_config mn mx))"

definition exhausted_pool :: pool_state where
  "exhausted_pool = run healthy [Acquire] (initialized_pool 1 1)"

definition exhausted_scenario :: pool_state where
  "exhausted_scenario = run healthy [Acquire, Acquire] (initialized_pool 1 1)"

definition stale_ticket_scenario :: pool_state where
  "stale_ticket_scenario =
     run healthy [Acquire, Acquire, WaitTimerFires 0, Acquire] (initialized_pool 1 1)"

definition three_acquired_scenario :: pool_state where
  "three_acquired_scenario = run healthy [Acquire, Acquire, Acquire] (initialized_pool 2 3)"

definition eviction_scenario :: pool_state where
  "eviction_scenario =
     run healthy [Acquire, Acquire, Release 0, Acquire] (initialized_pool 1 2)"

definition throwing_fn :: "conn \<Rightarrow> pool_state \<Rightarrow> (err + nat) \<times> pool_state" where
  "throwing_fn c s = (Inl (Error ''boom''), s)"

definition flaky_server :: "nat \<Rightarrow> err + nat" where
  "flaky_server k = (if k < 3 then Inl (Error ''refused'') else Inr 7)"

definition dead_server :: "nat \<Rightarrow> err + nat" where
  "dead_server k = Inl (Error (''refused '' @ show_nat k))"

section \<open>Properties\<close>

lemmas stat_defs = inc_created_def inc_acquired_def inc_released_def inc_destroyed_def
  inc_queuedRequests_def

lemmas eval_defs = run_def acquire_def release_def new_pool_def test_config_def healthy_def
  js_or_def createConnection_def createConnection_done_def new_client_def client_connect_def
  client_disconnect_def truthy_def authenticateWithRetry_def authLoop.simps set_add_def
  set_delete_def splice_indexOf_def waitForConnection_def wait_timer_fires_def
  setIdleTimeout_def idle_timer_fires_def initialize_def settle_def clearTimeout_def
  stats_total_def withConnection_def withConnection_body_def destroy_def
  destroy_connection_def initialized_pool_def stat_defs

subsection \<open>What settling a promise and calling a queued function leave alone\<close>

lemma settle_fields [simp]:
  "availableConnections (settle t v s) = availableConnections s"
  "activeConnections (settle t v s) = activeConnections s"
  "connectionQueue (settle t v s) = connectionQueue s"
  "clients (settle t v s) = clients s"
  "waitTimers (settle t v s) = waitTimers s"
  "idleTimers (settle t v s) = idleTimers s"
  "promises (settle t v s) = (if promises s t = Pending then (promises s)(t := v) else promises s)"
  by (simp_all add: settle_def)

lemma clearTimeout_fields [simp]:
  "availableConnections (clearTimeout t s) = availableConnections s"
  "activeConnections (clearTimeout t s) = activeConnections s"
  "connectionQueue (clearTimeout t s) = connectionQueue s"
  "clients (clearTimeout t s) = clients s"
  "promises (clearTimeout t s) = promises s"
  "idleTimers (clearTimeout t s) = idleTimers s"
  "waitTimers (clearTimeout t s) = filter (\<lambda>p. fst p \<noteq> t) (waitTimers s)"
  by (simp_all add: clearTimeout_def)

lemma call_fn_fields [simp]:
  "availableConnections (call_fn f x s) = availableConnections s"
  "activeConnections (call_fn f x s) = activeConnections s"
  "connectionQueue (call_fn f x s) = connectionQueue s"
  "clients (call_fn f x s) = clients s"
  "idleTimers (call_fn f x s) = idleTimers s"
  by (cases f; cases x; simp)+

lemma stats_total_call_fn [simp]: "stats_total (call_fn f x s) = stats_total s"
  by (simp add: stats_total_def)

subsection \<open>The scenarios, evaluated\<close>

lemma initialized_fields:
  "availableConnections (initialized_pool 2 3) = [0, 1]"
  "activeConnections (initialized_pool 2 3) = []"
  "connectionQueue (initialized_pool 2 3) = []"
  "stats (initialized_pool 2 3) =
     \<lparr>created = 2, acquired = 0, released = 0, destroyed = 0, queuedRequests = 0\<rparr>"
  by (simp_all add: eval_defs numeral_2_eq_2)

lemma exhausted_fields:
  "availableConnections exhausted_scenario = []"
  "activeConnections exhausted_scenario = [0]"
  "connectionQueue exhausted_scenario = [WaitCallback 0]"
  "waitTimers exhausted_scenario = [(0, 100)]"
  "promises exhausted_scenario 0 = Pending"
  "connectedFlag (clients exhausted_scenario 0)"
  "maxConnections exhausted_scenario = 1"
  by (simp_all add: exhausted_scenario_def eval_defs)

lemma stale_ticket_fields:
  "availableConnections stale_ticket_scenario = []"
  "activeConnections stale_ticket_scenario = [0]"
  "connectionQueue stale_ticket_scenario = [WaitCallback 0, WaitCallback 1]"
  "waitTimers stale_ticket_scenario = [(1, 100)]"
  "promises stale_ticket_scenario 0 = Rejected wait_timeout"
  "promises stale_ticket_scenario 1 = Pending"
  by (simp_all add: stale_ticket_scenario_def exhausted_scenario_def eval_defs)

lemma eviction_fields:
  "minConnections eviction_scenario = 1"
  "availableConnections eviction_scenario = [0]"
  "activeConnections eviction_scenario = [1]"
  "idleTimers eviction_scenario = [(0, 50)]"
  "destroyed (stats eviction_scenario) = 0"
  by (simp_all add: eviction_scenario_def eval_defs)

subsection \<open>The statistics are touched by the calls only\<close>

lemma stats_settle [simp]: "stats (settle t v s) = stats s"
  by (simp add: settle_def)

lemma stats_call_fn [simp]: "stats (call_fn f x s) = stats s"
  by (cases f; cases x) (simp_all add: clearTimeout_def)

lemma stats_wait_timer_fires [simp]: "stats (wait_timer_fires t s) = stats s"
  by (simp add: wait_timer_fires_def clearTimeout_def)

subsection \<open>Releasing a connection the pool does not know\<close>

text \<open>
  C10: \<open>release\<close> of a connection that is not in the active set returns normally,
  adds one to the \<open>released\<close> counter and changes nothing else: the available list,
  the active set, the queue, the other counters, the timers and the promises are as
  before.
\<close>

theorem release_unknown_connection:
  assumes "c \<notin> set (activeConnections s)"
  shows "release c s = s\<lparr>stats := (stats s)\<lparr>released := released (stats s) + 1\<rparr>\<rparr>"
  using assms by (simp add: release_def inc_released_def)

theorem release_unknown_connection_witness:
  "release 5 (run healthy [Initialize, Acquire] (new_pool (test_config 2 3))) =
     (run healthy [Initialize, Acquire] (new_pool (test_config 2 3)))
       \<lparr>stats := \<lparr>created = 2, acquired = 1, released = 1, destroyed = 0, queuedRequests = 0\<rparr>\<rparr>"
proof -
  let ?s = "run healthy [Initialize, Acquire] (new_pool (test_config 2 3))"
  have active: "activeConnections ?s = [0]" and st: "stats ?s =
      \<lparr>created = 2, acquired = 1, released = 0, destroyed = 0, queuedRequests = 0\<rparr>"
    by (simp_all add: eval_defs numeral_2_eq_2)
  have "5 \<notin> set (activeConnections ?s)"
    by (simp add: active)
  from release_unknown_connection [OF this] show ?thesis
    by (simp add: st)
qed

subsection \<open>The counters of acquire\<close>

text \<open>
  C9: every call of \<open>acquire\<close> adds exactly one to \<open>acquired\<close>, whichever way it is
  served. It adds one to \<open>queuedRequests\<close> when the caller is queued and nothing
  otherwise, and the caller is queued exactly when it is put on the wait queue: a
  queued call pushes its callback at the end of \<open>connectionQueue\<close>, with its promise
  pending and its timer set, and is given the ticket of that callback; a call served
  from the available list or by a new connection, or failing to create one, leaves
  the queue and the timers as they were. The path taken is the queue's exactly when
  the available list is empty and the active set has reached \<open>maxConnections\<close>.
  The \<open>released\<close> and \<open>destroyed\<close> counters are not touched. What settles a queued caller later (a callback called by \<open>release\<close> or
  \<open>destroy\<close>, or its timer) changes no counter.
\<close>

theorem acquire_counters:
  "acquired (stats (snd (acquire env s))) = acquired (stats s) + 1 \<and>
   queuedRequests (stats (snd (acquire env s))) =
     queuedRequests (stats s) + (if is_queued (fst (acquire env s)) then 1 else 0) \<and>
   (is_queued (fst (acquire env s)) \<longleftrightarrow>
      availableConnections s = [] \<and> maxConnections s \<le> length (activeConnections s)) \<and>
   (is_queued (fst (acquire env s)) \<longleftrightarrow> fst (acquire env s) = Queued (nextPromise s)) \<and>
   connectionQueue (snd (acquire env s)) =
     (if is_queued (fst (acquire env s))
      then connectionQueue s @ [WaitCallback (nextPromise s)]
      else connectionQueue s) \<and>
   waitTimers (snd (acquire env s)) =
     (if is_queued (fst (acquire env s))
      then waitTimers s @ [(nextPromise s, js_or (connectionTimeoutMillis (pool (config s))) 10000)]
      else waitTimers s) \<and>
   promises (snd (acquire env s)) =
     (if is_queued (fst (acquire env s))
      then (promises s)(nextPromise s := Pending)
      else promises s) \<and>
   released (stats (snd (acquire env s))) = released (stats s) \<and>
   destroyed (stats (snd (acquire env s))) = destroyed (stats s) \<and>
   stats (call_fn f x s) = stats s \<and>
   stats (wait_timer_fires t s) = stats s"
proof -
  have counters: "acquired (stats (snd (acquire env s))) = acquired (stats s) + 1"
    "queuedRequests (stats (snd (acquire env s))) =
       queuedRequests (stats s) + (if is_queued (fst (acquire env s)) then 1 else 0)"
    "released (stats (snd (acquire env s))) = released (stats s)"
    "destroyed (stats (snd (acquire env s))) = destroyed (stats s)"
    by (auto simp: acquire_def Let_def stat_defs createConnection_def createConnection_done_def
        new_client_def client_connect_def waitForConnection_def split: prod.splits sum.splits)
  have path: "is_queued (fst (acquire env s)) \<longleftrightarrow>
      availableConnections s = [] \<and> maxConnections s \<le> length (activeConnections s)"
    "is_queued (fst (acquire env s)) \<longleftrightarrow> fst (acquire env s) = Queued (nextPromise s)"
    by (auto simp: acquire_def Let_def stat_defs createConnection_def createConnection_done_def
        new_client_def client_connect_def waitForConnection_def split: prod.splits sum.splits)
  have queue: "connectionQueue (snd (acquire env s)) =
     (if is_queued (fst (acquire env s))
      then connectionQueue s @ [WaitCallback (nextPromise s)]
      else connectionQueue s)"
    "waitTimers (snd (acquire env s)) =
     (if is_queued (fst (acquire env s))
      then waitTimers s @ [(nextPromise s, js_or (connectionTimeoutMillis (pool (config s))) 10000)]
      else waitTimers s)"
    "promises (snd (acquire env s)) =
     (if is_queued (fst (acquire env s))
      then (promises s)(nextPromise s := Pending)
      else promises s)"
    by (auto simp: acquire_def Let_def stat_defs createConnection_def createConnection_done_def
        new_client_def client_connect_def waitForConnection_def split: prod.splits sum.splits)
  show ?thesis
    using counters path queue by simp
qed

text \<open>
  On the pool of one connection that is in use, the next \<open>acquire\<close> is queued: both
  counters go up by one and the callback of ticket 0 is the one entry of the queue.
  On the pool as initialized with two connections, \<open>acquire\<close> is served from the
  available list: only \<open>acquired\<close> goes up and the queue stays empty.
\<close>

theorem acquire_counters_witness:
  "fst (acquire healthy exhausted_pool) = Queued 0 \<and>
   connectionQueue (snd (acquire healthy exhausted_pool)) = [WaitCallback 0] \<and>
   stats (snd (acquire healthy exhausted_pool)) =
     \<lparr>created = 1, acquired = 2, released = 0, destroyed = 0, queuedRequests = 1\<rparr> \<and>
   fst (acquire healthy (initialized_pool 2 3)) = Acquired 0 \<and>
   connectionQueue (snd (acquire healthy (initialized_pool 2 3))) = [] \<and>
   queuedRequests (stats (snd (acquire healthy (initialized_pool 2 3)))) = 0 \<and>
   acquired (stats (snd (acquire healthy (initialized_pool 2 3)))) = 1"
proof -
  define s where "s = exhausted_pool"
  define i where "i = initialized_pool 2 3"
  have s: "availableConnections s = []" "activeConnections s = [0]" "maxConnections s = 1"
    "connectionQueue s = []" "nextPromise s = 0"
    "stats s = \<lparr>created = 1, acquired = 1, released = 0, destroyed = 0, queuedRequests = 0\<rparr>"
    by (simp_all add: s_def exhausted_pool_def eval_defs)
  have i: "availableConnections i = [0, 1]" "connectionQueue i = []"
    "stats i = \<lparr>created = 2, acquired = 0, released = 0, destroyed = 0, queuedRequests = 0\<rparr>"
    by (simp_all add: i_def initialized_fields)
  note ts = acquire_counters [of healthy s] and ti = acquire_counters [of healthy i]
  have q: "is_queued (fst (acquire healthy s))"
    using ts by (simp add: s)
  have nq: "\<not> is_queued (fst (acquire healthy i))"
    using ti by (simp add: i)
  have a: "fst (acquire healthy i) = Acquired 0"
    by (simp add: acquire_def Let_def i inc_acquired_def)
  have st: "stats (snd (acquire healthy s)) =
     \<lparr>created = 1, acquired = 2, released = 0, destroyed = 0, queuedRequests = 1\<rparr>"
    by (simp add: acquire_def Let_def s stat_defs waitForConnection_def)
  have "fst (acquire healthy s) = Queued 0"
    and "connectionQueue (snd (acquire healthy s)) = [WaitCallback 0]"
    using ts q by (simp_all add: s)
  moreover have "connectionQueue (snd (acquire healthy i)) = []"
    and "queuedRequests (stats (snd (acquire healthy i))) = 0"
    and "acquired (stats (snd (acquire healthy i))) = 1"
    using ti nq by (simp_all add: i)
  ultimately show ?thesis
    using a st unfolding s_def i_def by simp
qed

subsection \<open>The size invariant and the two collections\<close>

text \<open>
  A connection that \<open>acquire\<close> had to create is in the available list and in the
  active set when \<open>acquire\<close> returns it.
\<close>

lemma acquire_creation_overlap:
  assumes "availableConnections s = []" "acquire env s = (Acquired c, s')"
  shows "c \<in> set (availableConnections s') \<and> c \<in> set (activeConnections s')"
  using assms
  by (auto simp: acquire_def Let_def inc_acquired_def createConnection_def
      createConnection_done_def new_client_def inc_created_def set_add_def waitForConnection_def
      split: if_splits sum.splits prod.splits)

text \<open>
  C1 asks that the available list and the active set never share a connection and
  never hold more than \<open>maxConnections\<close> together. \<open>_createConnection\<close> pushes the
  new connection on the available list, and \<open>acquire\<close> then adds the same
  connection to the active set without taking it off the list. On the pool of the
  specification's scenario (min 2, max 3) after \<open>initialize\<close> and three \<open>acquire\<close>
  calls, connection 2 is in both collections and they hold four entries.
\<close>

theorem acquire_breaks_pool_invariant:
  "maxConnections three_acquired_scenario = 3 \<and>
   availableConnections three_acquired_scenario = [2] \<and>
   activeConnections three_acquired_scenario = [0, 1, 2] \<and>
   stats_total three_acquired_scenario = 4 \<and>
   2 \<in> set (availableConnections three_acquired_scenario)
         \<inter> set (activeConnections three_acquired_scenario)"
  by (simp add: three_acquired_scenario_def eval_defs numeral_2_eq_2 numeral_3_eq_3)

subsection \<open>The timeout of a queued caller\<close>

text \<open>
  The queue never holds the \<open>resolve\<close> function the timer looks for, so the timer
  leaves the queue as it is.
\<close>

lemma wait_timer_keeps_queue:
  "PromiseResolve t \<notin> set (connectionQueue s) \<Longrightarrow>
     connectionQueue (wait_timer_fires t s) = connectionQueue s"
  by (simp add: wait_timer_fires_def splice_indexOf_def)

text \<open>
  C2 asks that the timer of a queued caller removes the caller's ticket from the queue
  and rejects the caller with the timeout error. In a pool of one connection that is
  in use, the second caller is queued; when its timer fires its promise is rejected
  with the timeout error, and its callback is still in the queue.
\<close>

theorem wait_timeout_leaves_ticket_queued:
  "connectionQueue exhausted_scenario = [WaitCallback 0] \<and>
   waitTimers exhausted_scenario = [(0, 100)] \<and>
   promises exhausted_scenario 0 = Pending \<and>
   promises (wait_timer_fires 0 exhausted_scenario) 0 = Rejected wait_timeout \<and>
   connectionQueue (wait_timer_fires 0 exhausted_scenario) = [WaitCallback 0]"
  by (simp add: exhausted_fields wait_timer_fires_def splice_indexOf_def)

subsection \<open>Idle eviction\<close>

text \<open>
  Where the minimum is looked at: a release that puts the connection on the available
  list sets the idle timer exactly when the list, with the connection on it, is longer
  than \<open>minConnections\<close>. A timer that fires removes, disconnects and counts its
  connection when it is still in the available list, and does nothing when it is not;
  it does not look at the size of the list.
\<close>

lemma idle_timer_set_at_release:
  "(c \<in> set (activeConnections s) \<and> connectionQueue s = [] \<longrightarrow>
      availableConnections (release c s) = availableConnections s @ [c] \<and>
      idleTimers (release c s) =
        (if minConnections s < length (availableConnections s) + 1
         then idleTimers s @ [(c, idleTimeout s)] else idleTimers s)) \<and>
   (tm \<in> set (idleTimers s) \<and> fst tm \<in> set (availableConnections s) \<longrightarrow>
      availableConnections (idle_timer_fires env tm s) = remove1 (fst tm) (availableConnections s) \<and>
      destroyed (stats (idle_timer_fires env tm s)) = destroyed (stats s) + 1 \<and>
      (disconnectError env (fst tm) = None \<longrightarrow>
         \<not> connectedFlag (clients (idle_timer_fires env tm s) (fst tm)))) \<and>
   (fst tm \<notin> set (availableConnections s) \<longrightarrow>
      availableConnections (idle_timer_fires env tm s) = availableConnections s \<and>
      stats (idle_timer_fires env tm s) = stats s \<and>
      clients (idle_timer_fires env tm s) = clients s)"
  by (auto simp: release_def inc_released_def Let_def setIdleTimeout_def idle_timer_fires_def
      client_disconnect_def inc_destroyed_def split: sum.splits option.splits)

text \<open>
  C3 asks that an idle eviction destroys a connection only while the available list
  is longer than \<open>minConnections\<close>, so that it never takes the list below that
  floor. \<open>_setIdleTimeout\<close> guards the floor only when it sets the timer; an
  \<open>acquire\<close> between the release and the firing of the timer defeats the guard. In
  a pool with minimum 1, connection 0 was released while two connections were
  available, so its timer was set; the other connection was acquired since. When the
  timer fires, 0 is the only available connection: it is destroyed all the same and
  the available list is left empty, below the floor.
\<close>

theorem idle_eviction_below_floor:
  "(0, 50) \<in> set (idleTimers eviction_scenario) \<and>
   \<not> minConnections eviction_scenario < length (availableConnections eviction_scenario) \<and>
   destroyed (stats (idle_timer_fires healthy (0, 50) eviction_scenario)) =
     destroyed (stats eviction_scenario) + 1 \<and>
   availableConnections (idle_timer_fires healthy (0, 50) eviction_scenario) = [] \<and>
   length (availableConnections (idle_timer_fires healthy (0, 50) eviction_scenario))
     < minConnections eviction_scenario"
  by (simp add: idle_timer_fires_def eviction_fields Let_def client_disconnect_def healthy_def inc_destroyed_def
      split: sum.splits)

subsection \<open>withConnection\<close>

text \<open>
  C4 as stated fails: a call that has to create its connection leaves more
  connections behind than it found. On a new pool the function throws, the error
  reaches the caller, and the total has gone from 0 to 2.
\<close>

theorem withConnection_grows_pool:
  "stats_total (new_pool (test_config 2 3)) = 0 \<and>
   fst (withConnection healthy throwing_fn (new_pool (test_config 2 3))) =
     Done (Inl (Error ''boom'')) \<and>
   availableConnections (snd (withConnection healthy throwing_fn (new_pool (test_config 2 3)))) = [0, 0] \<and>
   stats_total (snd (withConnection healthy throwing_fn (new_pool (test_config 2 3)))) = 2"
  by (simp add: eval_defs throwing_fn_def)

lemma released_release: "released (stats (release c s)) = released (stats s) + 1"
  by (simp add: release_def inc_released_def Let_def setIdleTimeout_def)

lemma withConnection_reuse_total:
  assumes "availableConnections s \<noteq> []"
    and "hd (availableConnections s) \<notin> set (activeConnections s)"
    and "\<forall>c' s'. snd (fn c' s') = s'"
  shows "stats_total (snd (withConnection env fn s)) = stats_total s"
proof -
  let ?c = "hd (availableConnections s)"
  define s1 where "s1 = s\<lparr>stats := (stats s)\<lparr>acquired := acquired (stats s) + 1\<rparr>,
             availableConnections := tl (availableConnections s),
             activeConnections := activeConnections s @ [?c]\<rparr>"
  have a: "acquire env s = (Acquired ?c, s1)"
    using assms by (simp add: s1_def acquire_def inc_acquired_def Let_def set_add_def)
  obtain r where r: "fn ?c s1 = (r, s1)"
    using assms(3) by (metis prod.collapse)
  have w: "withConnection env fn s = (Done r, release ?c s1)"
    by (simp add: withConnection_def withConnection_body_def a r)
  have len: "0 < length (availableConnections s)"
    using assms(1) by simp
  have "stats_total (release ?c s1) = stats_total s"
    using assms(2) len
    by (simp add: s1_def release_def inc_released_def Let_def set_delete_def set_add_def
        setIdleTimeout_def stats_total_def)
  then show ?thesis by (simp add: w)
qed

text \<open>
  C4 as amended: when \<open>acquire\<close> has given \<open>withConnection\<close> a connection (at once,
  or later through its ticket), the connection is released after the function has run,
  whether it returned or threw, and only then does the result or the error reach the
  caller: \<open>released\<close> goes up by one, and a connection that is in the active set goes
  back to the available list when nobody is queued. When the connection was taken from
  the available list, was not in the active set already, and the function leaves the
  pool alone, the total of available and active connections after the call is what it
  was before.
\<close>

theorem withConnection_releases:
  "(acquire env s = (Acquired c, s1) \<and> fn c s1 = (r, s2) \<longrightarrow>
      withConnection env fn s = (Done r, release c s2)) \<and>
   (promises s t = Resolved (Some c) \<and> fn c s = (r, s2) \<longrightarrow>
      withConnection_resume fn t s = (Done r, release c s2)) \<and>
   released (stats (release c s2)) = released (stats s2) + 1 \<and>
   (c \<in> set (activeConnections s2) \<and> connectionQueue s2 = [] \<longrightarrow>
      c \<notin> set (activeConnections (release c s2)) \<and>
      availableConnections (release c s2) = availableConnections s2 @ [c]) \<and>
   (availableConnections s \<noteq> [] \<and> hd (availableConnections s) \<notin> set (activeConnections s) \<and>
    (\<forall>c' s'. snd (fn c' s') = s') \<longrightarrow>
      stats_total (snd (withConnection env fn s)) = stats_total s)"
proof (intro conjI impI)
  show "released (stats (release c s2)) = released (stats s2) + 1"
    by (rule released_release)
next
  assume "acquire env s = (Acquired c, s1) \<and> fn c s1 = (r, s2)"
  then show "withConnection env fn s = (Done r, release c s2)"
    by (simp add: withConnection_def withConnection_body_def)
next
  assume "promises s t = Resolved (Some c) \<and> fn c s = (r, s2)"
  then show "withConnection_resume fn t s = (Done r, release c s2)"
    by (simp add: withConnection_resume_def withConnection_body_def)
next
  assume "c \<in> set (activeConnections s2) \<and> connectionQueue s2 = []"
  then show "c \<notin> set (activeConnections (release c s2))"
    and "availableConnections (release c s2) = availableConnections s2 @ [c]"
    by (simp_all add: release_def inc_released_def Let_def set_delete_def setIdleTimeout_def)
next
  assume "availableConnections s \<noteq> [] \<and> hd (availableConnections s) \<notin> set (activeConnections s) \<and>
    (\<forall>c' s'. snd (fn c' s') = s')"
  then show "stats_total (snd (withConnection env fn s)) = stats_total s"
    by (simp add: withConnection_reuse_total)
qed

theorem withConnection_releases_witness:
  "fst (withConnection healthy throwing_fn (initialized_pool 2 3)) = Done (Inl (Error ''boom'')) \<and>
   stats_total (snd (withConnection healthy throwing_fn (initialized_pool 2 3))) = 2 \<and>
   stats_total (initialized_pool 2 3) = 2"
proof -
  let ?s = "initialized_pool 2 3"
  obtain s1 where a: "acquire healthy ?s = (Acquired 0, s1)"
    by (simp add: acquire_def Let_def initialized_fields inc_acquired_def)
  have f: "throwing_fn 0 s1 = (Inl (Error ''boom''), s1)"
    by (simp add: throwing_fn_def)
  have h: "availableConnections ?s \<noteq> [] \<and> hd (availableConnections ?s) \<notin> set (activeConnections ?s) \<and>
    (\<forall>c' s'. snd (throwing_fn c' s') = s')"
    by (simp add: initialized_fields throwing_fn_def)
  have t: "stats_total ?s = 2"
    by (simp add: stats_total_def initialized_fields)
  from withConnection_releases [of healthy ?s 0 s1 throwing_fn "Inl (Error ''boom'')" s1] a f h
  have "withConnection healthy throwing_fn ?s = (Done (Inl (Error ''boom'')), release 0 s1)"
    and "stats_total (snd (withConnection healthy throwing_fn ?s)) = stats_total ?s"
    by blast+
  then show ?thesis
    using t by simp
qed

subsection \<open>Handing a released connection to the queue\<close>

lemma set_add_delete [simp]: "c \<in> set xs \<Longrightarrow> set (set_add c (set_delete c xs)) = set xs"
  by (auto simp: set_add_def set_delete_def)

lemma release_handoff:
  assumes "c \<in> set (activeConnections s)" "connectionQueue s = WaitCallback t # q"
  shows "connectionQueue (release c s) = q"
    and "set (activeConnections (release c s)) = set (activeConnections s)"
    and "availableConnections (release c s) = availableConnections s"
    and "idleTimers (release c s) = idleTimers s"
    and "waitTimers (release c s) = filter (\<lambda>p. fst p \<noteq> t) (waitTimers s)"
    and "promises (release c s) =
           (promises s)(t := if promises s t = Pending then Resolved (Some c) else promises s t)"
  using assms
  by (auto simp: release_def inc_released_def Let_def settle_def clearTimeout_def fun_eq_iff)

lemma fold_release_fifo:
  assumes "set cs \<subseteq> set (activeConnections s)"
    and "connectionQueue s = map WaitCallback ts @ q"
    and "length cs = length ts"
  shows "connectionQueue (fold release cs s) = q \<and>
         set (activeConnections (fold release cs s)) = set (activeConnections s) \<and>
         availableConnections (fold release cs s) = availableConnections s \<and>
         (\<forall>t. t \<notin> set ts \<longrightarrow> promises (fold release cs s) t = promises s t) \<and>
         (distinct ts \<and> (\<forall>t \<in> set ts. promises s t = Pending) \<longrightarrow>
            (\<forall>i < length cs. promises (fold release cs s) (ts ! i) = Resolved (Some (cs ! i))))"
  using assms
proof (induction cs arbitrary: s ts)
  case Nil
  then show ?case by simp
next
  case (Cons c cs)
  then obtain t ts' where ts: "ts = t # ts'"
    by (cases ts) auto
  let ?s = "release c s"
  have c: "c \<in> set (activeConnections s)" and q: "connectionQueue s = WaitCallback t # (map WaitCallback ts' @ q)"
    using Cons.prems ts by auto
  note h = release_handoff [OF c q]
  have IH: "connectionQueue (fold release cs ?s) = q \<and>
         set (activeConnections (fold release cs ?s)) = set (activeConnections ?s) \<and>
         availableConnections (fold release cs ?s) = availableConnections ?s \<and>
         (\<forall>t. t \<notin> set ts' \<longrightarrow> promises (fold release cs ?s) t = promises ?s t) \<and>
         (distinct ts' \<and> (\<forall>t \<in> set ts'. promises ?s t = Pending) \<longrightarrow>
            (\<forall>i < length cs. promises (fold release cs ?s) (ts' ! i) = Resolved (Some (cs ! i))))"
    using Cons.prems ts h(1,2) by (intro Cons.IH) auto
  have pend: "promises (fold release cs ?s) (ts ! i) = Resolved (Some ((c # cs) ! i))"
    if d: "distinct ts" and p: "\<forall>t \<in> set ts. promises s t = Pending" and i: "i < length (c # cs)" for i
  proof (cases i)
    case 0
    have "t \<notin> set ts'" using d ts by simp
    with IH have "promises (fold release cs ?s) t = promises ?s t" by blast
    also have "\<dots> = Resolved (Some c)" using p ts by (simp add: h(6))
    finally show ?thesis using 0 ts by simp
  next
    case (Suc j)
    have "\<forall>t' \<in> set ts'. promises ?s t' = Pending"
      using d p ts by (auto simp: h(6))
    moreover have "distinct ts'" using d ts by simp
    ultimately have "promises (fold release cs ?s) (ts' ! j) = Resolved (Some (cs ! j))"
      using IH i Suc by auto
    then show ?thesis using Suc ts by simp
  qed
  show ?case
    using IH h pend ts by (auto)
qed

lemma acquire_enqueues:
  assumes "availableConnections s = []" "maxConnections s \<le> length (activeConnections s)"
  shows "fst (acquire env s) = Queued (nextPromise s)"
    and "connectionQueue (snd (acquire env s)) = connectionQueue s @ [WaitCallback (nextPromise s)]"
    and "promises (snd (acquire env s)) (nextPromise s) = Pending"
  using assms
  by (simp_all add: acquire_def Let_def inc_acquired_def inc_queuedRequests_def
      waitForConnection_def)

text \<open>
  What \<open>release\<close> does while the queue is not empty: the first entry of the queue
  is taken off and called with the connection, so its timer is cleared and its
  promise, when still pending, is resolved with the connection; the connection stays
  in the active set and the available list is as before. A queued \<open>acquire\<close> puts
  its ticket at the end of the queue. So when the tickets in front are all pending,
  releasing as many connections resolves the i-th ticket with the i-th connection.
\<close>

lemma release_serves_pending_waiters:
  "(c \<in> set (activeConnections s) \<and> connectionQueue s = WaitCallback t # q \<longrightarrow>
      connectionQueue (release c s) = q \<and>
      c \<in> set (activeConnections (release c s)) \<and>
      set (activeConnections (release c s)) = set (activeConnections s) \<and>
      availableConnections (release c s) = availableConnections s \<and>
      idleTimers (release c s) = idleTimers s \<and>
      t \<notin> fst ` set (waitTimers (release c s)) \<and>
      promises (release c s) =
        (promises s)(t := if promises s t = Pending then Resolved (Some c) else promises s t)) \<and>
   (availableConnections s = [] \<and> maxConnections s \<le> length (activeConnections s) \<longrightarrow>
      fst (acquire env s) = Queued (nextPromise s) \<and>
      connectionQueue (snd (acquire env s)) =
        connectionQueue s @ [WaitCallback (nextPromise s)]) \<and>
   (set cs \<subseteq> set (activeConnections s) \<and> connectionQueue s = map WaitCallback ts @ q \<and>
    length cs = length ts \<and> distinct ts \<and> (\<forall>t' \<in> set ts. promises s t' = Pending) \<longrightarrow>
      connectionQueue (fold release cs s) = q \<and>
      availableConnections (fold release cs s) = availableConnections s \<and>
      set (activeConnections (fold release cs s)) = set (activeConnections s) \<and>
      (\<forall>i < length cs. promises (fold release cs s) (ts ! i) = Resolved (Some (cs ! i))))"
proof (intro conjI impI)
  assume h: "c \<in> set (activeConnections s) \<and> connectionQueue s = WaitCallback t # q"
  then have c: "c \<in> set (activeConnections s)" and q: "connectionQueue s = WaitCallback t # q"
    by simp_all
  note r = release_handoff [OF c q]
  show "connectionQueue (release c s) = q" by (rule r(1))
  show "set (activeConnections (release c s)) = set (activeConnections s)" by (rule r(2))
  then show "c \<in> set (activeConnections (release c s))" using c by simp
  show "availableConnections (release c s) = availableConnections s" by (rule r(3))
  show "idleTimers (release c s) = idleTimers s" by (rule r(4))
  show "t \<notin> fst ` set (waitTimers (release c s))" by (auto simp: r(5))
  show "promises (release c s) =
        (promises s)(t := if promises s t = Pending then Resolved (Some c) else promises s t)"
    by (rule r(6))
next
  assume "availableConnections s = [] \<and> maxConnections s \<le> length (activeConnections s)"
  then show "fst (acquire env s) = Queued (nextPromise s)"
    and "connectionQueue (snd (acquire env s)) =
        connectionQueue s @ [WaitCallback (nextPromise s)]"
    by (simp_all add: acquire_enqueues)
next
  assume h: "set cs \<subseteq> set (activeConnections s) \<and> connectionQueue s = map WaitCallback ts @ q \<and>
    length cs = length ts \<and> distinct ts \<and> (\<forall>t' \<in> set ts. promises s t' = Pending)"
  then have f: "connectionQueue (fold release cs s) = q \<and>
         set (activeConnections (fold release cs s)) = set (activeConnections s) \<and>
         availableConnections (fold release cs s) = availableConnections s \<and>
         (\<forall>t. t \<notin> set ts \<longrightarrow> promises (fold release cs s) t = promises s t) \<and>
         (distinct ts \<and> (\<forall>t \<in> set ts. promises s t = Pending) \<longrightarrow>
            (\<forall>i < length cs. promises (fold release cs s) (ts ! i) = Resolved (Some (cs ! i))))"
    by (intro fold_release_fifo) simp_all
  show "connectionQueue (fold release cs s) = q"
    and "availableConnections (fold release cs s) = availableConnections s"
    and "set (activeConnections (fold release cs s)) = set (activeConnections s)"
    and "\<forall>i < length cs. promises (fold release cs s) (ts ! i) = Resolved (Some (cs ! i))"
    using f h by blast+
qed

text \<open>
  C5 asks that a released connection is handed to the oldest waiter. The callback of
  a caller that timed out is still in the queue (its timer did not remove it), in
  front of the caller that is waiting. Releasing the connection takes that callback
  off the queue and calls it, which resolves nothing: the promise of the first caller
  stays rejected, the caller that is waiting stays pending, and the connection stays
  in the active set with no one to use it.
\<close>

theorem release_serves_stale_ticket:
  "connectionQueue stale_ticket_scenario = [WaitCallback 0, WaitCallback 1] \<and>
   promises stale_ticket_scenario 0 = Rejected wait_timeout \<and>
   promises stale_ticket_scenario 1 = Pending \<and>
   activeConnections stale_ticket_scenario = [0] \<and>
   connectionQueue (release 0 stale_ticket_scenario) = [WaitCallback 1] \<and>
   promises (release 0 stale_ticket_scenario) 0 = Rejected wait_timeout \<and>
   promises (release 0 stale_ticket_scenario) 1 = Pending \<and>
   activeConnections (release 0 stale_ticket_scenario) = [0] \<and>
   availableConnections (release 0 stale_ticket_scenario) = []"
proof -
  have c: "0 \<in> set (activeConnections stale_ticket_scenario)"
    and q: "connectionQueue stale_ticket_scenario = WaitCallback 0 # [WaitCallback 1]"
    by (simp_all add: stale_ticket_fields)
  note r = release_handoff [OF c q]
  have "activeConnections (release 0 stale_ticket_scenario) = [0]"
    by (simp add: release_def inc_released_def Let_def set_add_def set_delete_def
        stale_ticket_fields)
  moreover have "promises stale_ticket_scenario (Suc 0) = Pending"
    using stale_ticket_fields(6) by simp
  ultimately show ?thesis
    by (simp add: r stale_ticket_fields)
qed

subsection \<open>Authentication with retry\<close>

lemma authLoop_success:
  assumes "a \<le> j" "j \<le> maxAttempts r" "auth j = Inr u"
    and "\<forall>k. a \<le> k \<and> k < j \<longrightarrow> (\<exists>e. auth k = Inl e)"
  shows "authLoop r auth a le tr = (Inr u, tr @ backoff_trace r a j)"
  using assms
proof (induction "j - a" arbitrary: a le tr)
  case 0
  then have "a = j" by simp
  with 0 show ?case
    by (simp add: authLoop.simps [of r auth j] backoff_trace_def)
next
  case (Suc n)
  then have lt: "a < j" by simp
  with Suc.prems obtain e where e: "auth a = Inl e" by auto
  have step: "authLoop r auth (Suc a) (Some e) tr' = (Inr u, tr' @ backoff_trace r (Suc a) j)" for tr'
    using Suc.hyps Suc.prems lt by (intro Suc.hyps(1)) auto
  have "[a..<j] = a # [Suc a..<j]"
    using lt by (simp add: upt_conv_Cons)
  then have bt: "backoff_trace r a j =
      [Attempt a, Sleep (delayMs r * backoffMultiplier r ^ (a - 1))] @ backoff_trace r (Suc a) j"
    by (simp add: backoff_trace_def)
  show ?case
    using lt Suc.prems(2) e by (simp add: authLoop.simps [of r auth a] step bt)
qed

lemma authLoop_exhausted:
  assumes "a \<le> maxAttempts r"
    and "\<forall>k. a \<le> k \<and> k \<le> maxAttempts r \<longrightarrow> (\<exists>e. auth k = Inl e)"
  shows "authLoop r auth a le tr =
     (Inl (OdooConnectionError
            (''Failed to authenticate after '' @ show_nat (maxAttempts r) @ '' attempts'')
            (Some (projl (auth (maxAttempts r))))),
      tr @ backoff_trace r a (maxAttempts r))"
  using assms
proof (induction "maxAttempts r - a" arbitrary: a le tr)
  case 0
  then have eq: "a = maxAttempts r" by simp
  with 0 obtain e where e: "auth (maxAttempts r) = Inl e" by auto
  show ?case
    unfolding eq using e
    by (simp add: authLoop.simps [of r auth "maxAttempts r"]
        authLoop.simps [of r auth "Suc (maxAttempts r)"] backoff_trace_def)
next
  case (Suc n)
  then have lt: "a < maxAttempts r" by simp
  with Suc.prems obtain e where e: "auth a = Inl e" by auto
  have step: "authLoop r auth (Suc a) (Some e) tr' =
     (Inl (OdooConnectionError
            (''Failed to authenticate after '' @ show_nat (maxAttempts r) @ '' attempts'')
            (Some (projl (auth (maxAttempts r))))),
      tr' @ backoff_trace r (Suc a) (maxAttempts r))" for tr'
    using Suc.hyps Suc.prems lt by (intro Suc.hyps(1)) auto
  have "[a..<maxAttempts r] = a # [Suc a..<maxAttempts r]"
    using lt by (simp add: upt_conv_Cons)
  then have bt: "backoff_trace r a (maxAttempts r) =
      [Attempt a, Sleep (delayMs r * backoffMultiplier r ^ (a - 1))]
      @ backoff_trace r (Suc a) (maxAttempts r)"
    by (simp add: backoff_trace_def)
  show ?case
    using lt e by (simp add: authLoop.simps [of r auth a] step bt)
qed

lemma authLoop_attempts:
  "length (filter is_attempt (snd (authLoop r auth a le tr))) \<le>
     length (filter is_attempt tr) + (maxAttempts r + 1 - a)"
proof (induction r auth a le tr rule: authLoop.induct)
  case (1 r auth attempt lastError tr)
  show ?case
  proof (cases "attempt \<le> maxAttempts r")
    case False
    then show ?thesis by (simp add: authLoop.simps [of r auth attempt])
  next
    case le: True
    show ?thesis
    proof (cases "auth attempt")
      case (Inr u)
      with le show ?thesis by (simp add: authLoop.simps [of r auth attempt])
    next
      case (Inl e)
      from "1.IH" [OF le Inl] le Inl show ?thesis
        by (simp add: authLoop.simps [of r auth attempt] split: if_splits)
    qed
  qed
qed

text \<open>
  C6: with attempts numbered from 1, when attempt \<open>j \<le> maxAttempts\<close> is the first to
  succeed, exactly the attempts 1 to \<open>j\<close> are made, each failed attempt \<open>k\<close> is
  followed by a sleep of \<open>delayMs * backoffMultiplier ^ (k - 1)\<close>, and the user id of
  attempt \<open>j\<close> is returned. When all \<open>maxAttempts\<close> attempts fail, exactly these
  attempts are made, with the same sleeps between them and none after the last, and an
  \<open>OdooConnectionError\<close> carrying the error of the last attempt is thrown. Never
  more than \<open>maxAttempts\<close> attempts are made.
\<close>

theorem authenticateWithRetry_backoff:
  "(1 \<le> j \<and> j \<le> maxAttempts r \<and> auth j = Inr u \<and>
      (\<forall>k. 1 \<le> k \<and> k < j \<longrightarrow> (\<exists>e. auth k = Inl e)) \<longrightarrow>
      authenticateWithRetry r auth = (Inr u, backoff_trace r 1 j)) \<and>
   (1 \<le> maxAttempts r \<and> auth (maxAttempts r) = Inl e \<and>
      (\<forall>k. 1 \<le> k \<and> k \<le> maxAttempts r \<longrightarrow> (\<exists>e'. auth k = Inl e')) \<longrightarrow>
      authenticateWithRetry r auth =
        (Inl (OdooConnectionError
               (''Failed to authenticate after '' @ show_nat (maxAttempts r) @ '' attempts'')
               (Some e)),
         backoff_trace r 1 (maxAttempts r))) \<and>
   length (filter is_attempt (snd (authenticateWithRetry r auth))) \<le> maxAttempts r"
proof (intro conjI impI)
  assume "1 \<le> j \<and> j \<le> maxAttempts r \<and> auth j = Inr u \<and>
      (\<forall>k. 1 \<le> k \<and> k < j \<longrightarrow> (\<exists>e. auth k = Inl e))"
  then show "authenticateWithRetry r auth = (Inr u, backoff_trace r 1 j)"
    using authLoop_success [of 1 j r auth u None "[]"]
    by (simp add: authenticateWithRetry_def)
next
  assume h: "1 \<le> maxAttempts r \<and> auth (maxAttempts r) = Inl e \<and>
      (\<forall>k. 1 \<le> k \<and> k \<le> maxAttempts r \<longrightarrow> (\<exists>e'. auth k = Inl e'))"
  then show "authenticateWithRetry r auth =
        (Inl (OdooConnectionError
               (''Failed to authenticate after '' @ show_nat (maxAttempts r) @ '' attempts'')
               (Some e)),
         backoff_trace r 1 (maxAttempts r))"
    using authLoop_exhausted [of 1 r auth None "[]"]
    by (simp add: authenticateWithRetry_def)
next
  show "length (filter is_attempt (snd (authenticateWithRetry r auth))) \<le> maxAttempts r"
    using authLoop_attempts [of r auth 1 None "[]"]
    by (simp add: authenticateWithRetry_def)
qed

theorem authenticateWithRetry_backoff_witness:
  "authenticateWithRetry \<lparr>maxAttempts = 3, delayMs = 100, backoffMultiplier = 2\<rparr> flaky_server =
     (Inr 7, [Attempt 1, Sleep 100, Attempt 2, Sleep 200, Attempt 3]) \<and>
   authenticateWithRetry \<lparr>maxAttempts = 3, delayMs = 100, backoffMultiplier = 2\<rparr> dead_server =
     (Inl (OdooConnectionError ''Failed to authenticate after 3 attempts''
            (Some (Error ''refused 3''))),
      [Attempt 1, Sleep 100, Attempt 2, Sleep 200, Attempt 3])"
proof -
  let ?r = "\<lparr>maxAttempts = 3, delayMs = 100, backoffMultiplier = 2\<rparr>"
  have bt: "backoff_trace ?r (Suc 0) 3 = [Attempt 1, Sleep 100, Attempt 2, Sleep 200, Attempt 3]"
  proof -
    have "[1..<3] = [1, 2::nat]"
      by (simp add: upt_conv_Cons)
    then show ?thesis
      by (simp add: backoff_trace_def)
  qed
  have sn: "show_nat 3 = ''3''"
    by code_simp
  have 1: "authenticateWithRetry ?r flaky_server = (Inr 7, backoff_trace ?r 1 3)"
    using authenticateWithRetry_backoff [of 3 ?r flaky_server 7]
    by (simp add: flaky_server_def)
  have 2: "authenticateWithRetry ?r dead_server =
      (Inl (OdooConnectionError
               (''Failed to authenticate after '' @ show_nat (maxAttempts ?r) @ '' attempts'')
               (Some (Error (''refused '' @ show_nat 3)))), backoff_trace ?r 1 (maxAttempts ?r))"
    using authenticateWithRetry_backoff [of _ ?r dead_server _ "Error (''refused '' @ show_nat 3)"]
    by (simp add: dead_server_def)
  show ?thesis
    using 1 2 by (simp add: bt sn)
qed

subsection \<open>Destroying the pool\<close>

lemma destroy_connection_Inr: "\<exists>s'. destroy_connection env c s = Inr s'"
  by (simp add: destroy_connection_def split: sum.splits)

lemma destroy_connection_frame:
  "destroy_connection env c s = Inr s' \<Longrightarrow>
     availableConnections s' = availableConnections s \<and>
     activeConnections s' = activeConnections s \<and>
     connectionQueue s' = connectionQueue s \<and>
     promises s' = promises s \<and> waitTimers s' = waitTimers s \<and> idleTimers s' = idleTimers s"
  by (auto simp: destroy_connection_def client_disconnect_def inc_destroyed_def
      split: sum.splits if_splits option.splits)

lemma destroy_connection_clients:
  "destroy_connection env c s = Inr s' \<Longrightarrow>
     (\<forall>d. d \<noteq> c \<longrightarrow> clients s' d = clients s d) \<and>
     (connectedFlag (clients s' c) \<longrightarrow> connectedFlag (clients s c)) \<and>
     (disconnectError env c = None \<longrightarrow> \<not> connectedFlag (clients s' c))"
  by (auto simp: destroy_connection_def client_disconnect_def inc_destroyed_def
      split: sum.splits if_splits option.splits)

lemma destroy_all_Inr:
  "\<exists>s'. destroy_all env cs s = Inr s' \<and>
     availableConnections s' = availableConnections s \<and>
     activeConnections s' = activeConnections s \<and>
     connectionQueue s' = connectionQueue s \<and>
     promises s' = promises s \<and> waitTimers s' = waitTimers s \<and> idleTimers s' = idleTimers s \<and>
     (\<forall>d. connectedFlag (clients s' d) \<longrightarrow> connectedFlag (clients s d)) \<and>
     (\<forall>d \<in> set cs. disconnectError env d = None \<longrightarrow> \<not> connectedFlag (clients s' d))"
proof (induction cs arbitrary: s)
  case Nil
  then show ?case by simp
next
  case (Cons c cs)
  obtain s1 where s1: "destroy_connection env c s = Inr s1"
    using destroy_connection_Inr by blast
  note f = destroy_connection_frame [OF s1] and cl = destroy_connection_clients [OF s1]
  from Cons.IH [of s1] obtain s' where s': "destroy_all env cs s1 = Inr s'"
    and fr: "availableConnections s' = availableConnections s1"
      "activeConnections s' = activeConnections s1"
      "connectionQueue s' = connectionQueue s1"
      "promises s' = promises s1" "waitTimers s' = waitTimers s1" "idleTimers s' = idleTimers s1"
    and mono: "\<forall>d. connectedFlag (clients s' d) \<longrightarrow> connectedFlag (clients s1 d)"
    and off: "\<forall>d \<in> set cs. disconnectError env d = None \<longrightarrow> \<not> connectedFlag (clients s' d)"
    by blast
  have "\<forall>d. connectedFlag (clients s' d) \<longrightarrow> connectedFlag (clients s d)"
    using mono cl by metis
  moreover have "\<forall>d \<in> set (c # cs). disconnectError env d = None \<longrightarrow> \<not> connectedFlag (clients s' d)"
    using mono cl off by auto
  ultimately show ?case
    using s1 s' fr f by simp
qed

lemma fold_call_fn_None_frame:
  "availableConnections (fold (\<lambda>resolve. call_fn resolve None) fs s) = availableConnections s \<and>
   activeConnections (fold (\<lambda>resolve. call_fn resolve None) fs s) = activeConnections s \<and>
   clients (fold (\<lambda>resolve. call_fn resolve None) fs s) = clients s"
  by (induction fs arbitrary: s) simp_all

lemma call_fn_keeps_rejected:
  "promises s t = Rejected e \<Longrightarrow> promises (call_fn f x s) t = Rejected e"
  by (cases f; cases x) auto

lemma fold_call_fn_keeps_rejected:
  "promises s t = Rejected e \<Longrightarrow>
     promises (fold (\<lambda>resolve. call_fn resolve None) fs s) t = Rejected e"
  by (induction fs arbitrary: s) (simp_all add: call_fn_keeps_rejected)

lemma call_fn_other_ticket:
  "f \<noteq> WaitCallback t \<Longrightarrow> f \<noteq> PromiseResolve t \<Longrightarrow> promises (call_fn f x s) t = promises s t"
  by (cases f; cases x) auto

lemma fold_call_fn_rejects:
  assumes "WaitCallback t \<in> set fs" "PromiseResolve t \<notin> set fs" "promises s t = Pending"
  shows "promises (fold (\<lambda>resolve. call_fn resolve None) fs s) t = Rejected pool_closing"
  using assms
proof (induction fs arbitrary: s)
  case Nil
  then show ?case by simp
next
  case (Cons f fs)
  show ?case
  proof (cases "f = WaitCallback t")
    case True
    then have "promises (call_fn f None s) t = Rejected pool_closing"
      using Cons.prems(3) by simp
    then show ?thesis
      by (simp add: fold_call_fn_keeps_rejected)
  next
    case False
    then have "promises (call_fn f None s) t = Pending"
      using Cons.prems call_fn_other_ticket [of f t None s] by auto
    with Cons.IH [of "call_fn f None s"] Cons.prems False show ?thesis
      by simp
  qed
qed

text \<open>
  C7: \<open>destroy\<close> never fails, whatever the state of the pool and whichever
  connections fail to disconnect. Afterwards the queue and both collections are
  empty; every queued caller that was still waiting is rejected with the pool-closing
  error; every connection that was available or active and whose \<open>disconnect\<close> does
  not fail is disconnected, the failure of another one notwithstanding. A second
  \<open>destroy\<close> succeeds too and changes nothing.
\<close>

theorem destroy_tears_down:
  "\<exists>s'. destroy env s = Inr s' \<and>
     connectionQueue s' = [] \<and> availableConnections s' = [] \<and> activeConnections s' = [] \<and>
     stats_total s' = 0 \<and>
     (\<forall>t. WaitCallback t \<in> set (connectionQueue s) \<and> PromiseResolve t \<notin> set (connectionQueue s) \<and>
          promises s t = Pending \<longrightarrow> promises s' t = Rejected pool_closing) \<and>
     (\<forall>c \<in> set (availableConnections s @ activeConnections s).
          disconnectError env c = None \<longrightarrow> \<not> connectedFlag (clients s' c)) \<and>
     destroy env s' = Inr s'"
proof -
  let ?s1 = "fold (\<lambda>resolve. call_fn resolve None) (connectionQueue s) s"
  let ?s2 = "?s1\<lparr>connectionQueue := []\<rparr>"
  let ?all = "availableConnections ?s2 @ activeConnections ?s2"
  from destroy_all_Inr [of env ?all ?s2] obtain s3 where s3: "destroy_all env ?all ?s2 = Inr s3"
    and fr: "connectionQueue s3 = connectionQueue ?s2" "promises s3 = promises ?s2"
    and off: "\<forall>d \<in> set ?all. disconnectError env d = None \<longrightarrow> \<not> connectedFlag (clients s3 d)"
    by blast
  let ?s' = "s3\<lparr>availableConnections := [], activeConnections := []\<rparr>"
  have d: "destroy env s = Inr ?s'"
    using s3 by (simp add: destroy_def Let_def)
  have all: "?all = availableConnections s @ activeConnections s"
    by (simp add: fold_call_fn_None_frame)
  have again: "destroy env ?s' = Inr ?s'"
    using fr by (simp add: destroy_def Let_def)
  have rej: "promises ?s' t = Rejected pool_closing"
    if "WaitCallback t \<in> set (connectionQueue s)" "PromiseResolve t \<notin> set (connectionQueue s)"
      "promises s t = Pending" for t
    using that fr by (simp add: fold_call_fn_rejects)
  show ?thesis
  proof (intro exI [of _ ?s'] conjI)
    show "destroy env s = Inr ?s'" by (rule d)
    show "destroy env ?s' = Inr ?s'" by (rule again)
    show "connectionQueue ?s' = []" using fr by simp
    show "availableConnections ?s' = []" "activeConnections ?s' = []" by simp_all
    show "stats_total ?s' = 0" by (simp add: stats_total_def)
    show "\<forall>t. WaitCallback t \<in> set (connectionQueue s) \<and> PromiseResolve t \<notin> set (connectionQueue s) \<and>
          promises s t = Pending \<longrightarrow> promises ?s' t = Rejected pool_closing"
      using rej by blast
    show "\<forall>c \<in> set (availableConnections s @ activeConnections s).
          disconnectError env c = None \<longrightarrow> \<not> connectedFlag (clients ?s' c)"
      using off unfolding all by simp
  qed
qed

theorem destroy_tears_down_witness:
  "\<exists>s'. destroy healthy exhausted_scenario = Inr s' \<and>
     stats_total s' = 0 \<and> connectionQueue s' = [] \<and>
     promises s' 0 = Rejected pool_closing \<and> \<not> connectedFlag (clients s' 0) \<and>
     destroy healthy s' = Inr s'"
proof -
  from destroy_tears_down [of healthy exhausted_scenario]
  obtain s' where d: "destroy healthy exhausted_scenario = Inr s'"
    and e: "connectionQueue s' = []" "stats_total s' = 0" "destroy healthy s' = Inr s'"
    and p: "\<forall>t. WaitCallback t \<in> set (connectionQueue exhausted_scenario) \<and>
          PromiseResolve t \<notin> set (connectionQueue exhausted_scenario) \<and>
          promises exhausted_scenario t = Pending \<longrightarrow> promises s' t = Rejected pool_closing"
    and c: "\<forall>c \<in> set (availableConnections exhausted_scenario @ activeConnections exhausted_scenario).
          disconnectError healthy c = None \<longrightarrow> \<not> connectedFlag (clients s' c)"
    by blast
  have "promises s' 0 = Rejected pool_closing"
    using p by (simp add: exhausted_fields)
  moreover have "\<not> connectedFlag (clients s' 0)"
    using c by (simp add: exhausted_fields healthy_def)
  ultimately show ?thesis
    using d e by blast
qed

subsection \<open>The singleton\<close>

lemma getInstance_calls_same:
  "instance_ref k = Some p \<Longrightarrow> getInstance_calls cfgs k = (map (\<lambda>cfg. Inr p) cfgs, k)"
  by (induction cfgs) (simp_all add: getInstance_def)

text \<open>
  C8: while no pool exists, \<open>getInstance\<close> without a configuration throws, and with
  a configuration it constructs a pool from it and stores it. Once a pool exists,
  every call returns that pool and constructs nothing, whatever configuration it is
  given; so after the first successful call on the class as loaded, all later calls
  return the pool made then.
\<close>

theorem getInstance_singleton:
  "(instance_ref k = None \<longrightarrow>
      getInstance None k =
        Inl (Error ''Config is required for first initialization of OdooConnectionPool'')) \<and>
   (instance_ref k = None \<longrightarrow>
      getInstance (Some c) k =
        Inr (length (heap k),
             k\<lparr>heap := heap k @ [new_pool c], instance_ref := Some (length (heap k))\<rparr>)) \<and>
   (instance_ref k = Some p \<longrightarrow> getInstance cfg k = Inr (p, k)) \<and>
   (getInstance (Some c) class_loaded = Inr (q, k') \<longrightarrow>
      heap k' ! q = new_pool c \<and> getInstance_calls cfgs k' = (map (\<lambda>cfg. Inr q) cfgs, k'))"
  by (auto simp: getInstance_def class_loaded_def getInstance_calls_same)

theorem getInstance_singleton_witness:
  "getInstance None class_loaded =
     Inl (Error ''Config is required for first initialization of OdooConnectionPool'') \<and>
   getInstance_calls [Some (test_config 2 3), Some (test_config 1 1), None] class_loaded =
     ([Inr 0, Inr 0, Inr 0], \<lparr>heap = [new_pool (test_config 2 3)], instance_ref = Some 0\<rparr>)"
proof -
  let ?k = "\<lparr>heap = [new_pool (test_config 2 3)], instance_ref = Some 0\<rparr>"
  have n: "instance_ref class_loaded = None" and h: "heap class_loaded = []"
    by (simp_all add: class_loaded_def)
  have 1: "getInstance None class_loaded =
     Inl (Error ''Config is required for first initialization of OdooConnectionPool'')"
    using getInstance_singleton [of class_loaded] n by blast
  have 2: "getInstance (Some (test_config 2 3)) class_loaded = Inr (0, ?k)"
    using getInstance_singleton [of class_loaded "test_config 2 3"] n h
    by (simp add: class_loaded_def)
  have 3: "getInstance_calls [Some (test_config 1 1), None] ?k = ([Inr 0, Inr 0], ?k)"
    using getInstance_singleton [of _ "test_config 2 3" _ _ 0 ?k "[Some (test_config 1 1), None]"] 2
    by simp
  show ?thesis
    using 1 2 3 by simp
qed

end
